theory Spec2Isabelle
  imports Complex_Main "HOL-Library.Log_Nat"
begin

section \<open>JavaScript numbers\<close>

text \<open>
  A finite JavaScript Number is an IEEE-754 binary64 value; it is modelled by the rational
  it denotes. \<open>binade x\<close> is the exponent \<open>e\<close> with \<open>2^e \<le> x < 2^(e+1)\<close> of a positive
  \<open>x\<close>, \<open>round_even\<close> rounds to the nearest integer with ties to the even one, and
  \<open>fl\<close> rounds a rational to the nearest binary64 value (53 significant bits, gradual
  underflow below \<open>2^-1022\<close>). Overflow to Infinity is not modelled: every value this
  program computes with \<open>fl\<close> is a quotient of two array lengths or its product with 100.
\<close>

type_synonym double = rat

definition binade :: "rat \<Rightarrow> int" where
  "binade x =
     (case quotient_of x of (p, q) \<Rightarrow>
        let d = bitlen p - bitlen q
        in if (if 0 \<le> d then q * 2 ^ nat d \<le> p else q \<le> p * 2 ^ nat (- d)) then d else d - 1)"

definition round_even :: "rat \<Rightarrow> int" where
  "round_even x =
     (let n = \<lfloor>x\<rfloor>; r = x - of_int n
      in if r < 1 / 2 then n else if 1 / 2 < r then n + 1 else if even n then n else n + 1)"

definition ulp :: "rat \<Rightarrow> rat" where
  "ulp x = 2 powi (max (binade \<bar>x\<bar>) (- 1022) - 52)"

definition fl :: "rat \<Rightarrow> double" where
  "fl x = (if x = 0 then 0 else of_int (round_even (x / ulp x)) * ulp x)"

definition fdiv :: "double \<Rightarrow> double \<Rightarrow> double" where
  \<comment> \<open>\<open>x / y\<close> for a non-zero \<open>y\<close>\<close>
  "fdiv x y = fl (x / y)"

definition fmul :: "double \<Rightarrow> double \<Rightarrow> double" where
  \<comment> \<open>\<open>x * y\<close>\<close>
  "fmul x y = fl (x * y)"

definition Math_round :: "double \<Rightarrow> int" where
  \<comment> \<open>\<open>Math.round\<close>: the nearest integer, a tie going towards plus infinity\<close>
  "Math_round x = \<lfloor>x + 1 / 2\<rfloor>"

section \<open>Tasks\<close>

text \<open>
  A task is the object the upstream API returns. \<open>status\<close> is \<open>None\<close> when the task has no
  status object, \<open>Some None\<close> when the status object has no label, and \<open>Some (Some s)\<close>
  for the label \<open>s\<close>. A timestamp field is missing (\<open>undefined\<close>), JSON \<open>null\<close>, or the
  string of decimal digits of an epoch time in milliseconds; time values are integers well
  below \<open>2^53\<close>, so \<open>Number\<close> reads them exactly.
\<close>

datatype stamp = Missing | JNull | Millis int

record task =
  name :: string
  status :: "string option option"
  date_created :: stamp
  date_closed :: stamp
  url :: string

fun Number :: "stamp \<Rightarrow> int option" where
  \<comment> \<open>\<open>None\<close> is NaN\<close>
  "Number Missing = None"
| "Number JNull = Some 0"
| "Number (Millis n) = Some n"

fun truthy :: "stamp \<Rightarrow> bool" where
  "truthy Missing = False"
| "truthy JNull = False"
| "truthy (Millis n) = True"

fun js_ge :: "int option \<Rightarrow> int \<Rightarrow> bool" where
  \<comment> \<open>\<open>x >= y\<close>: false when \<open>x\<close> is NaN\<close>
  "js_ge None y = False"
| "js_ge (Some x) y = (y \<le> x)"

definition lower_char :: "char \<Rightarrow> char" where
  "lower_char c =
     (let n = of_char c :: nat in if 65 \<le> n \<and> n \<le> 90 then char_of (n + 32) else c)"

definition toLowerCase :: "string \<Rightarrow> string" where
  \<comment> \<open>Labels are byte strings and only the letters A to Z are folded. No other character
      folds to a letter of the configured status names, so the classification below is
      the one of the full Unicode folding.\<close>
  "toLowerCase s = map lower_char s"

definition status_label :: "task \<Rightarrow> string option" where
  \<comment> \<open>\<open>t.status?.status\<close>\<close>
  "status_label t = (case status t of None \<Rightarrow> None | Some l \<Rightarrow> l)"

definition lowered_label :: "task \<Rightarrow> string option" where
  \<comment> \<open>\<open>t.status?.status?.toLowerCase()\<close>\<close>
  "lowered_label t = map_option toLowerCase (status_label t)"

fun includes_js :: "string list \<Rightarrow> string option \<Rightarrow> bool" where
  \<comment> \<open>\<open>xs.includes(v)\<close> for an array of strings: \<open>undefined\<close> is no element of it\<close>
  "includes_js xs None = False"
| "includes_js xs (Some s) = (s \<in> set xs)"

definition DONE_STATUSES :: "string list" where
  "DONE_STATUSES = [''complete'', ''done'', ''closed'', ''shipped'']"

definition IN_PROGRESS_STATUSES :: "string list" where
  "IN_PROGRESS_STATUSES = [''in progress'', ''in review'', ''in qa'', ''dev'', ''review'']"

section \<open>The aggregator\<close>

definition isDone :: "task \<Rightarrow> bool" where
  "isDone t = includes_js DONE_STATUSES (lowered_label t)"

definition isInProgress :: "task \<Rightarrow> bool" where
  "isInProgress t = includes_js IN_PROGRESS_STATUSES (lowered_label t)"

definition closedInRange :: "int \<Rightarrow> task \<Rightarrow> bool" where
  "closedInRange sinceMs t = (isDone t \<and> js_ge (Number (date_closed t)) sinceMs)"

definition createdInRange :: "int \<Rightarrow> task \<Rightarrow> bool" where
  "createdInRange sinceMs t = js_ge (Number (date_created t)) sinceMs"

definition isDeferred :: "task \<Rightarrow> bool" where
  \<comment> \<open>\<open>t.status?.status?.toLowerCase() === 'deferred'\<close>\<close>
  "isDeferred t = (lowered_label t = Some ''deferred'')"

record stats_rec =
  featuresShipped :: int
  qaPassRate :: int
  inProgress :: int
  openBugs :: int
  tasksClosed :: int

record bugs_rec =
  newThisWeek :: int
  resolved :: int
  open_bugs :: int
  deferred :: int

record snapshot =
  stats :: stats_rec
  bugs :: bugs_rec

definition qa_rate :: "int \<Rightarrow> int \<Rightarrow> int" where
  \<comment> \<open>\<open>totalShipped > 0 ? Math.round((featuresShipped / totalShipped) * 100) : 100\<close>\<close>
  "qa_rate shipped totalShipped =
     (if 0 < totalShipped
      then Math_round (fmul (fdiv (of_int shipped) (of_int totalShipped)) 100)
      else 100)"

definition computeStats :: "task list \<Rightarrow> task list \<Rightarrow> int \<Rightarrow> snapshot" where
  "computeStats featureTasks bugTasks sinceMs =
     (let featuresShipped = int (length (filter (closedInRange sinceMs) featureTasks));
          inProgress = int (length (filter isInProgress featureTasks));
          tasksClosed = int (length (filter (closedInRange sinceMs) (featureTasks @ bugTasks)));
          openBugs = int (length (filter (\<lambda>t. \<not> isDone t) bugTasks));
          bugsNew = int (length (filter (createdInRange sinceMs) bugTasks));
          bugsResolved = int (length (filter (closedInRange sinceMs) bugTasks));
          bugsDeferred = int (length (filter isDeferred bugTasks));
          bugsClosedInRange = int (length (filter (closedInRange sinceMs) bugTasks));
          totalShipped = featuresShipped + bugsClosedInRange;
          qaPassRate = qa_rate featuresShipped totalShipped
      in \<lparr>stats = \<lparr>featuresShipped = featuresShipped, qaPassRate = qaPassRate,
                    inProgress = inProgress, openBugs = openBugs, tasksClosed = tasksClosed\<rparr>,
          bugs = \<lparr>newThisWeek = bugsNew, resolved = bugsResolved, open_bugs = openBugs,
                   deferred = bugsDeferred\<rparr>\<rparr>)"

definition qaPassRate_spec :: "int \<Rightarrow> int \<Rightarrow> int" where
  \<comment> \<open>The specification's words: round(100 * featuresShipped / (featuresShipped +
      bugsClosedInRange)) if the denominator is positive, else 100, where rounding is
      round-half-up to the nearest integer, in exact arithmetic.\<close>
  "qaPassRate_spec shipped bugsClosed =
     (if 0 < shipped + bugsClosed
      then \<lfloor>(100 * of_int shipped / of_int (shipped + bugsClosed) :: rat) + 1 / 2\<rfloor>
      else 100)"

definition counts_of :: "snapshot \<Rightarrow> int list" where
  \<comment> \<open>every number of a snapshot\<close>
  "counts_of r = [featuresShipped (stats r), qaPassRate (stats r), inProgress (stats r),
     openBugs (stats r), tasksClosed (stats r), newThisWeek (bugs r), resolved (bugs r),
     open_bugs (bugs r), deferred (bugs r)]"

section \<open>The fetcher\<close>

text \<open>
  The run's inputs are gathered in \<open>env\<close>: the four environment variables, the successive
  readings of the clock, the two calendar functions of the runtime (the local start of the
  year of a time value, and the ISO-8601 rendering of a time value), the upstream API as a
  function from the requested URL to its response, which of two failing fetches settles
  first, and how the file system answers the write. The effects of a run are the \<open>world\<close>:
  the sequence of console lines and requests, and the content of the output file.
\<close>

datatype error =
    ApiError string nat string  \<comment> \<open>path, status and body of a response that is not ok\<close>
  | Rejected string  \<comment> \<open>\<open>fetch\<close> or \<open>res.json()\<close> rejects\<close>
  | RangeError  \<comment> \<open>\<open>toISOString\<close> of an invalid time value\<close>
  | WriteFailed string  \<comment> \<open>\<open>writeFileSync\<close> throws\<close>

datatype response =
    NoResponse string
  | NotOk nat string
  | Ok "task list option"  \<comment> \<open>the parsed body's \<open>tasks\<close>, if it has any\<close>

record activity =
  title :: string
  activity_status :: "string option"
  closedAt :: string
  activity_url :: string

record document =
  lastUpdated :: string
  default_stats :: stats_rec
  default_bugs :: bugs_rec
  ranges :: "(string \<times> snapshot) list"
  recentActivity :: "activity list"

datatype write_outcome =
    Written
  | Fails string "document option"  \<comment> \<open>the message, and what the failed write leaves behind\<close>

datatype event =
    Request string
  | LogFetching
  | LogFeatureCount nat
  | LogBugCount nat
  | LogUpdated
  | LogRange string int int int
  | ErrMissingConfig
  | ErrUpdateFailed error

record env =
  TOKEN :: "string option"
  TEAM_ID :: "string option"
  FEATURES_LIST :: "string option"
  BUGS_LIST :: "string option"
  clock :: "nat \<Rightarrow> int"
  year_start :: "int \<Rightarrow> int"
  toISOString :: "int \<Rightarrow> string"
  upstream :: "string \<Rightarrow> response"
  bugs_settle_first :: bool
  write_outcome :: write_outcome

record world =
  trace :: "event list"
  data_json :: "document option"

definition emit :: "event \<Rightarrow> world \<Rightarrow> world" where
  "emit e w = w\<lparr>trace := trace w @ [e]\<rparr>"

fun is_set :: "string option \<Rightarrow> bool" where
  \<comment> \<open>truthiness of an environment variable: unset and empty are falsy\<close>
  "is_set None = False"
| "is_set (Some s) = (s \<noteq> [])"

definition clickup :: "env \<Rightarrow> string \<Rightarrow> string \<Rightarrow> world \<Rightarrow> (error + task list option) \<times> world" where
  \<comment> \<open>\<open>query\<close> is the rendered parameter list; the result is the parsed body's \<open>tasks\<close>\<close>
  "clickup env path query w =
     (let url = ''https://api.clickup.com/api/v2'' @ path @ query;
          w' = emit (Request url) w
      in case upstream env url of
           NoResponse msg \<Rightarrow> (Inl (Rejected msg), w')
         | NotOk code body \<Rightarrow> (Inl (ApiError path code body), w')
         | Ok data \<Rightarrow> (Inr data, w'))"

definition getListTasks :: "env \<Rightarrow> string option \<Rightarrow> world \<Rightarrow> (error + task list) \<times> world" where
  "getListTasks env listId w =
     (case listId of
        None \<Rightarrow> (Inr [], w)
      | Some l \<Rightarrow>
          if l = [] then (Inr [], w)
          else case clickup env (''/list/'' @ l @ ''/task'') ''?include_closed=true'' w of
                 (Inl e, w') \<Rightarrow> (Inl e, w')
               | (Inr None, w') \<Rightarrow> (Inr [], w')
               | (Inr (Some tasks), w') \<Rightarrow> (Inr tasks, w'))"

definition fetch_all :: "env \<Rightarrow> world \<Rightarrow> (error + task list \<times> task list) \<times> world" where
  \<comment> \<open>\<open>Promise.all\<close> of the two fetches: both are started, the first rejection wins\<close>
  "fetch_all env w =
     (let (rf, w1) = getListTasks env (FEATURES_LIST env) w;
          (rb, w2) = getListTasks env (BUGS_LIST env) w1
      in case (rf, rb) of
           (Inr fs, Inr bs) \<Rightarrow> (Inr (fs, bs), w2)
         | (Inl e, Inr bs) \<Rightarrow> (Inl e, w2)
         | (Inr fs, Inl e) \<Rightarrow> (Inl e, w2)
         | (Inl e1, Inl e2) \<Rightarrow> (Inl (if bugs_settle_first env then e2 else e1), w2))"

section \<open>The reporter\<close>

definition daysAgo :: "int \<Rightarrow> int \<Rightarrow> int" where
  \<comment> \<open>the first argument is the reading of \<open>Date.now()\<close>\<close>
  "daysAgo now n = now - n * 24 * 60 * 60 * 1000"

definition startOfYear :: "env \<Rightarrow> int \<Rightarrow> int" where
  "startOfYear env now = year_start env now"

definition closed_ms :: "task \<Rightarrow> int" where
  \<comment> \<open>\<open>Number(t.date_closed)\<close> of a task that passed the filter of \<open>recent\<close>, whose
      closure field is truthy\<close>
  "closed_ms t = (case Number (date_closed t) of Some n \<Rightarrow> n | None \<Rightarrow> 0)"

definition recent_tasks :: "task list \<Rightarrow> task list \<Rightarrow> task list" where
  \<comment> \<open>filter, stable sort with the comparator \<open>Number(b.date_closed) - Number(a.date_closed)\<close>,
      \<open>slice(0, 5)\<close>\<close>
  "recent_tasks allFeatureTasks allBugTasks =
     take 5 (sort_key (\<lambda>t. - closed_ms t)
       (filter (\<lambda>t. includes_js DONE_STATUSES (lowered_label t) \<and> truthy (date_closed t))
          (allFeatureTasks @ allBugTasks)))"

definition valid_time :: "int \<Rightarrow> bool" where
  "valid_time n = (\<bar>n\<bar> \<le> 8640000000000000)"

definition activity_of :: "env \<Rightarrow> task \<Rightarrow> activity" where
  "activity_of env t = \<lparr>title = name t, activity_status = status_label t,
     closedAt = toISOString env (closed_ms t), activity_url = url t\<rparr>"

definition recent :: "env \<Rightarrow> task list \<Rightarrow> task list \<Rightarrow> error + activity list" where
  "recent env allFeatureTasks allBugTasks =
     (let sel = recent_tasks allFeatureTasks allBugTasks
      in if list_all (\<lambda>t. valid_time (closed_ms t)) sel
         then Inr (map (activity_of env) sel)
         else Inl RangeError)"

definition writeFileSync :: "env \<Rightarrow> document \<Rightarrow> world \<Rightarrow> (error + unit) \<times> world" where
  "writeFileSync env data w =
     (case write_outcome env of
        Written \<Rightarrow> (Inr (), w\<lparr>data_json := Some data\<rparr>)
      | Fails msg left \<Rightarrow> (Inl (WriteFailed msg), w\<lparr>data_json := left\<rparr>))"

definition log_range :: "world \<Rightarrow> string \<times> snapshot \<Rightarrow> world" where
  "log_range w rd =
     emit (LogRange (fst rd) (featuresShipped (stats (snd rd))) (tasksClosed (stats (snd rd)))
             (openBugs (stats (snd rd)))) w"

definition main :: "env \<Rightarrow> world \<Rightarrow> (error + unit) \<times> world" where
  "main env w0 =
     (case fetch_all env (emit LogFetching w0) of
        (Inl e, w1) \<Rightarrow> (Inl e, w1)
      | (Inr (allFeatureTasks, allBugTasks), w1) \<Rightarrow>
          let w2 = emit (LogFeatureCount (length allFeatureTasks)) w1;
              w3 = emit (LogBugCount (length allBugTasks)) w2;
              today = computeStats allFeatureTasks allBugTasks (daysAgo (clock env 0) 1);
              d7 = computeStats allFeatureTasks allBugTasks (daysAgo (clock env 1) 7);
              d30 = computeStats allFeatureTasks allBugTasks (daysAgo (clock env 2) 30);
              d90 = computeStats allFeatureTasks allBugTasks (daysAgo (clock env 3) 90);
              ytd = computeStats allFeatureTasks allBugTasks (startOfYear env (clock env 4));
              rs = [(''today'', today), (''7d'', d7), (''30d'', d30), (''90d'', d90), (''ytd'', ytd)]
          in case recent env allFeatureTasks allBugTasks of
               Inl e \<Rightarrow> (Inl e, w3)
             | Inr acts \<Rightarrow>
                 let data = \<lparr>lastUpdated = toISOString env (clock env 5),
                             default_stats = stats d7, default_bugs = bugs d7,
                             ranges = rs, recentActivity = acts\<rparr>
                 in case writeFileSync env data w3 of
                      (Inl e, w4) \<Rightarrow> (Inl e, w4)
                    | (Inr u, w4) \<Rightarrow> (Inr (), foldl log_range (emit LogUpdated w4) rs))"

definition run :: "env \<Rightarrow> world \<Rightarrow> world \<times> nat" where
  \<comment> \<open>the module's top level: the final world and the exit status\<close>
  "run env w =
     (if \<not> is_set (TOKEN env) \<or> \<not> is_set (TEAM_ID env)
      then (emit ErrMissingConfig w, 1)
      else case main env w of
             (Inl e, w') \<Rightarrow> (emit (ErrUpdateFailed e) w', 1)
           | (Inr u, w') \<Rightarrow> (w', 0))"

section \<open>The aggregator on a store\<close>

text \<open>
  To say that \<open>computeStats\<close> shares no mutable state between its calls, the arrays and
  task objects it works on are placed in a store: task objects and arrays live at
  addresses, an array holds the addresses of its elements, and \<open>filter\<close> and the spread
  \<open>[...a, ...b]\<close> allocate a new array at the next free address. \<open>computeStats_h\<close> is
  the function of the source with every array operation made on the store.
\<close>

record heap =
  objs :: "nat \<Rightarrow> task"
  arrs :: "nat \<Rightarrow> nat list"
  fresh :: nat

definition alloc_arr :: "nat list \<Rightarrow> heap \<Rightarrow> nat \<times> heap" where
  "alloc_arr xs h = (fresh h, h\<lparr>arrs := (arrs h)(fresh h := xs), fresh := Suc (fresh h)\<rparr>)"

definition filter_h :: "(task \<Rightarrow> bool) \<Rightarrow> nat \<Rightarrow> heap \<Rightarrow> nat \<times> heap" where
  "filter_h p a h = alloc_arr (filter (\<lambda>r. p (objs h r)) (arrs h a)) h"

definition spread_h :: "nat \<Rightarrow> nat \<Rightarrow> heap \<Rightarrow> nat \<times> heap" where
  "spread_h a b h = alloc_arr (arrs h a @ arrs h b) h"

definition length_h :: "nat \<Rightarrow> heap \<Rightarrow> int" where
  "length_h a h = int (length (arrs h a))"

definition contents :: "heap \<Rightarrow> nat \<Rightarrow> task list" where
  \<comment> \<open>the tasks an array refers to\<close>
  "contents h a = map (objs h) (arrs h a)"

definition computeStats_h :: "nat \<Rightarrow> nat \<Rightarrow> int \<Rightarrow> heap \<Rightarrow> snapshot \<times> heap" where
  "computeStats_h featureTasks bugTasks sinceMs h0 =
     (let (a1, h1) = filter_h (closedInRange sinceMs) featureTasks h0;
          featuresShipped = length_h a1 h1;
          (a2, h2) = filter_h isInProgress featureTasks h1;
          inProgress = length_h a2 h2;
          (a3, h3) = spread_h featureTasks bugTasks h2;
          (a4, h4) = filter_h (closedInRange sinceMs) a3 h3;
          tasksClosed = length_h a4 h4;
          (a5, h5) = filter_h (\<lambda>t. \<not> isDone t) bugTasks h4;
          openBugs = length_h a5 h5;
          (a6, h6) = filter_h (createdInRange sinceMs) bugTasks h5;
          bugsNew = length_h a6 h6;
          (a7, h7) = filter_h (closedInRange sinceMs) bugTasks h6;
          bugsResolved = length_h a7 h7;
          (a8, h8) = filter_h isDeferred bugTasks h7;
          bugsDeferred = length_h a8 h8;
          (a9, h9) = filter_h (closedInRange sinceMs) bugTasks h8;
          bugsClosedInRange = length_h a9 h9;
          totalShipped = featuresShipped + bugsClosedInRange;
          qaPassRate = qa_rate featuresShipped totalShipped
      in (\<lparr>stats = \<lparr>featuresShipped = featuresShipped, qaPassRate = qaPassRate,
                     inProgress = inProgress, openBugs = openBugs, tasksClosed = tasksClosed\<rparr>,
           bugs = \<lparr>newThisWeek = bugsNew, resolved = bugsResolved, open_bugs = openBugs,
                    deferred = bugsDeferred\<rparr>\<rparr>, h9))"

section \<open>Example inputs\<close>

definition done_feature :: task where
  "done_feature = \<lparr>name = ''feature'', status = Some (Some ''done''),
     date_created = Millis 1000, date_closed = Millis 5000, url = ''https://app/t/f''\<rparr>"

definition closed_bug :: task where
  "closed_bug = \<lparr>name = ''bug'', status = Some (Some ''Closed''),
     date_created = Millis 1000, date_closed = Millis 6000, url = ''https://app/t/b''\<rparr>"

definition unlabelled_bug :: task where
  "unlabelled_bug = \<lparr>name = ''no label'', status = Some None,
     date_created = Millis 1000, date_closed = JNull, url = ''https://app/t/u''\<rparr>"

definition done_unclosed :: task where
  "done_unclosed = \<lparr>name = ''done, not closed'', status = Some (Some ''Done''),
     date_created = Millis 1000, date_closed = Missing, url = ''https://app/t/d''\<rparr>"

definition done_null_closed :: task where
  "done_null_closed = \<lparr>name = ''done, closure null'', status = Some (Some ''done''),
     date_created = Millis 1000, date_closed = JNull, url = ''https://app/t/n''\<rparr>"

definition shipped_feature :: task where
  "shipped_feature = \<lparr>name = ''export'', status = Some (Some ''Shipped''),
     date_created = Millis 1699000000000, date_closed = Millis 1699900000000,
     url = ''https://app/t/s''\<rparr>"

definition good_env :: env where
  "good_env = \<lparr>TOKEN = Some ''pk_1'', TEAM_ID = Some ''9001'', FEATURES_LIST = Some ''11'',
     BUGS_LIST = None, clock = (\<lambda>i. 1700000000000 + int i),
     year_start = (\<lambda>t. 1672531200000),
     toISOString = (\<lambda>t. if t = 1699900000000 then ''2023-11-13T18:26:40.000Z''
                          else ''2023-11-14T22:13:20.005Z''),
     upstream = (\<lambda>u. Ok (Some [shipped_feature])), bugs_settle_first = False,
     write_outcome = Written\<rparr>"

definition example_task :: "string \<Rightarrow> string \<Rightarrow> stamp \<Rightarrow> task" where
  "example_task nm label closure = \<lparr>name = nm, status = Some (Some label),
     date_created = Millis 1690000000000, date_closed = closure, url = ''https://app/t/'' @ nm\<rparr>"

definition busy_features :: "task list" where
  "busy_features =
     [example_task ''a'' ''done'' (Millis 1699100000000),
      example_task ''b'' ''Complete'' (Millis 1699900000000),
      example_task ''c'' ''in progress'' (Millis 1699950000000),
      example_task ''d'' ''done'' JNull,
      example_task ''e'' ''Shipped'' Missing,
      example_task ''f'' ''done'' (Millis 1699500000000),
      example_task ''h'' ''DONE'' (Millis 1699000000000)]"

definition busy_bugs :: "task list" where
  "busy_bugs =
     [example_task ''g'' ''Closed'' (Millis 1699800000000),
      example_task ''i'' ''closed'' (Millis 1699500000000),
      example_task ''j'' ''done'' (Millis 1698000000000),
      example_task ''k'' ''new'' JNull]"

definition example_iso :: "int \<Rightarrow> string" where
  "example_iso t =
     (if t = 1699900000000 then ''2023-11-13T18:26:40.000Z''
      else if t = 1699800000000 then ''2023-11-12T14:40:00.000Z''
      else if t = 1699500000000 then ''2023-11-09T03:20:00.000Z''
      else if t = 1699100000000 then ''2023-11-04T12:13:20.000Z''
      else if t = 1699000000000 then ''2023-11-03T08:26:40.000Z''
      else if t = 1698000000000 then ''2023-10-22T18:40:00.000Z''
      else ''2023-11-14T22:13:20.005Z'')"

definition busy_env :: env where
  "busy_env = good_env\<lparr>BUGS_LIST := Some ''22'', toISOString := example_iso,
     upstream := (\<lambda>u. if u = ''https://api.clickup.com/api/v2/list/11/task?include_closed=true''
                        then Ok (Some busy_features) else Ok (Some busy_bugs))\<rparr>"

definition bad_env :: env where
  "bad_env = good_env\<lparr>upstream := (\<lambda>u. NotOk 500 ''down'')\<rparr>"

definition old_document :: document where
  "old_document = \<lparr>lastUpdated = ''yesterday'', default_stats = stats (computeStats [] [] 0),
     default_bugs = bugs (computeStats [] [] 0), ranges = [], recentActivity = []\<rparr>"

definition old_world :: world where
  "old_world = \<lparr>trace = [], data_json = Some old_document\<rparr>"

definition example_heap :: heap where
  "example_heap = \<lparr>objs = (\<lambda>r. if r = 0 then done_feature else closed_bug),
     arrs = (\<lambda>a. if a = 2 then [0] else if a = 3 then [1] else []), fresh = 4\<rparr>"

definition example_heap2 :: heap where
  "example_heap2 = \<lparr>objs = (\<lambda>r. if r = 5 then done_feature else closed_bug),
     arrs = (\<lambda>a. if a = 0 then [5] else if a = 1 then [7] else []), fresh = 2\<rparr>"

section \<open>Rounding to binary64\<close>

lemma quotient_of_pos:
  assumes "0 < x" and "quotient_of x = (p, q)"
  shows "0 < p" and "0 < q" and "x = of_int p / of_int q"
proof -
  show q: "0 < q" using assms(2) by (rule quotient_of_denom_pos)
  show x: "x = of_int p / of_int q" using assms(2) by (rule quotient_of_div)
  from assms(1) x q show "0 < p" by (simp add: zero_less_divide_iff)
qed

lemma pow2_int_rat: "0 \<le> k \<Longrightarrow> (2::rat) powi k = of_int (2 ^ nat k)"
  by (simp add: power_int_def)

lemma binade_le:
  assumes "0 < x"
  shows "2 powi (binade x) \<le> x"
proof -
  obtain p q where pq: "quotient_of x = (p, q)" by (cases "quotient_of x")
  from quotient_of_pos[OF assms pq] have p: "0 < p" and q: "0 < q" and x: "x = of_int p / of_int q"
    by blast+
  define d where "d = bitlen p - bitlen q"
  have bd: "binade x = (if (if 0 \<le> d then q * 2 ^ nat d \<le> p else q \<le> p * 2 ^ nat (- d)) then d else d - 1)"
    unfolding binade_def pq d_def by (simp only: Let_def prod.case)
  have bp: "2 ^ nat (bitlen p - 1) \<le> p" using bitlen_bounds[OF p] by simp
  have bq: "q < 2 ^ nat (bitlen q)" using bitlen_bounds[OF q] by simp
  have bp1: "1 \<le> bitlen p" using p by (simp add: bitlen_alt_def) 
  have bq0: "0 \<le> bitlen q" by (rule bitlen_nonneg)
  have key: "\<And>e. (2::rat) powi e * of_int q \<le> of_int p \<Longrightarrow> 2 powi e \<le> x"
    using q by (simp add: x pos_le_divide_eq)
  show ?thesis
  proof (cases "if 0 \<le> d then q * 2 ^ nat d \<le> p else q \<le> p * 2 ^ nat (- d)")
    case True
    then have b: "binade x = d" unfolding bd by (rule if_P)
    show ?thesis
    proof (cases "0 \<le> d")
      case d0: True
      with True have "q * 2 ^ nat d \<le> p" by simp
      then have "(of_int (q * 2 ^ nat d) :: rat) \<le> of_int p" by (simp only: of_int_le_iff)
      then have "(2::rat) powi d * of_int q \<le> of_int p" using d0 by (simp add: power_int_def mult.commute)
      then show ?thesis unfolding b by (rule key)
    next
      case d0: False
      with True have "q \<le> p * 2 ^ nat (- d)" by simp
      then have "(of_int q :: rat) \<le> of_int (p * 2 ^ nat (- d))" by (simp only: of_int_le_iff)
      then have "(of_int q :: rat) \<le> of_int p * 2 ^ nat (- d)" by simp
      then have "(2::rat) powi d * of_int q \<le> of_int p" using d0
        by (simp add: power_int_def field_simps)
      then show ?thesis unfolding b by (rule key)
    qed
  next
    case False
    then have b: "binade x = d - 1" unfolding bd by (rule if_not_P)
    have "(of_int q :: rat) \<le> of_int (2 ^ nat (bitlen q))" using bq by (simp only: of_int_le_iff less_imp_le)
    then have q': "(of_int q :: rat) \<le> 2 powi (bitlen q)" using bq0 by (simp add: power_int_def)
    have "(of_int (2 ^ nat (bitlen p - 1)) :: rat) \<le> of_int p" using bp by (simp only: of_int_le_iff)
    then have p': "(2::rat) powi (bitlen p - 1) \<le> of_int p" using bp1 by (simp add: power_int_def)
    have "(2::rat) powi (d - 1) * of_int q \<le> 2 powi (d - 1) * 2 powi (bitlen q)"
      using q' by (simp add: mult_left_mono)
    also have "\<dots> = 2 powi (bitlen p - 1)"
      by (simp add: d_def power_int_add[symmetric])
    also note p'
    finally show ?thesis unfolding b by (rule key)
  qed
qed

lemma binade_gt:
  assumes "0 < x"
  shows "x < 2 powi (binade x + 1)"
proof -
  obtain p q where pq: "quotient_of x = (p, q)" by (cases "quotient_of x")
  from quotient_of_pos[OF assms pq] have p: "0 < p" and q: "0 < q" and x: "x = of_int p / of_int q"
    by blast+
  define d where "d = bitlen p - bitlen q"
  have bd: "binade x = (if (if 0 \<le> d then q * 2 ^ nat d \<le> p else q \<le> p * 2 ^ nat (- d)) then d else d - 1)"
    unfolding binade_def pq d_def by (simp only: Let_def prod.case)
  have bp: "p < 2 ^ nat (bitlen p)" using bitlen_bounds[OF p] by simp
  have bq: "2 ^ nat (bitlen q - 1) \<le> q" using bitlen_bounds[OF q] by simp
  have bp0: "0 \<le> bitlen p" by (rule bitlen_nonneg)
  have bq1: "1 \<le> bitlen q" using q by (simp add: bitlen_alt_def)
  have key: "\<And>e. of_int p < (2::rat) powi e * of_int q \<Longrightarrow> x < 2 powi e"
    using q by (simp add: x pos_divide_less_eq)
  show ?thesis
  proof (cases "if 0 \<le> d then q * 2 ^ nat d \<le> p else q \<le> p * 2 ^ nat (- d)")
    case True
    then have b: "binade x = d" unfolding bd by (rule if_P)
    have "(of_int p :: rat) < of_int (2 ^ nat (bitlen p))" using bp by (simp only: of_int_less_iff)
    then have "(of_int p :: rat) < 2 powi (bitlen p)" using bp0 by (simp add: power_int_def)
    also have "\<dots> = 2 powi (d + 1) * 2 powi (bitlen q - 1)"
      by (simp add: d_def power_int_add[symmetric])
    also have "\<dots> \<le> 2 powi (d + 1) * of_int q"
    proof -
      have "(of_int (2 ^ nat (bitlen q - 1)) :: rat) \<le> of_int q" using bq by (simp only: of_int_le_iff)
      then have "(2::rat) powi (bitlen q - 1) \<le> of_int q" using bq1 by (simp add: power_int_def)
      then show ?thesis by (simp add: mult_left_mono)
    qed
    finally show ?thesis unfolding b by (rule key)
  next
    case False
    then have b: "binade x = d - 1" unfolding bd by (rule if_not_P)
    have "of_int p < (2::rat) powi d * of_int q"
    proof (cases "0 \<le> d")
      case d0: True
      with False have "p < q * 2 ^ nat d" by simp
      then have "(of_int p :: rat) < of_int (q * 2 ^ nat d)" by (simp only: of_int_less_iff)
      then show ?thesis using d0 by (simp add: power_int_def mult.commute)
    next
      case d0: False
      with False have "p * 2 ^ nat (- d) < q" by simp
      then have "(of_int (p * 2 ^ nat (- d)) :: rat) < of_int q" by (simp only: of_int_less_iff)
      then have "(of_int p :: rat) * 2 ^ nat (- d) < of_int q" by simp
      then show ?thesis using d0 by (simp add: power_int_def field_simps)
    qed
    then show ?thesis unfolding b by (simp add: key)
  qed
qed

lemma round_even_error: "\<bar>of_int (round_even x) - x\<bar> \<le> 1 / 2"
proof -
  have "of_int \<lfloor>x\<rfloor> \<le> x" and "x < of_int \<lfloor>x\<rfloor> + 1" by linarith+
  then show ?thesis unfolding round_even_def Let_def by (auto simp: abs_le_iff)
qed

lemma round_even_mono_int:
  "x \<le> of_int N \<Longrightarrow> round_even x \<le> N"
  "of_int M \<le> x \<Longrightarrow> M \<le> round_even x"
  unfolding round_even_def Let_def
  by (auto simp: floor_le_iff le_floor_iff) linarith+

lemma ulp_pos: "0 < ulp x"
  by (simp add: ulp_def)

lemma fl_error: "\<bar>fl x - x\<bar> \<le> ulp x / 2"
proof (cases "x = 0")
  case True
  then show ?thesis using ulp_pos [of x] by (simp add: fl_def)
next
  case False
  have "\<bar>fl x - x\<bar> = \<bar>of_int (round_even (x / ulp x)) - x / ulp x\<bar> * ulp x"
  proof -
    have "fl x - x = (of_int (round_even (x / ulp x)) - x / ulp x) * ulp x"
      using False ulp_pos [of x] by (simp add: fl_def field_simps)
    then show ?thesis using ulp_pos [of x] by (simp add: abs_mult)
  qed
  also have "\<dots> \<le> (1 / 2) * ulp x"
    using round_even_error [of "x / ulp x"] ulp_pos [of x] by (intro mult_right_mono) simp_all
  finally show ?thesis by simp
qed

lemma fl_nonneg:
  assumes "0 \<le> x"
  shows "0 \<le> fl x"
proof (cases "x = 0")
  case True
  then show ?thesis by (simp add: fl_def)
next
  case False
  have "of_int 0 \<le> x / ulp x" using assms ulp_pos[of x] by simp
  then have "0 \<le> round_even (x / ulp x)" by (rule round_even_mono_int(2))
  then show ?thesis using False ulp_pos[of x] by (simp add: fl_def)
qed

lemma binade_less:
  assumes "0 < x" and "x < 2 powi e"
  shows "binade x < e"
proof (rule ccontr)
  assume "\<not> binade x < e"
  then have "e \<le> binade x" by simp
  then have "(2::rat) powi e \<le> 2 powi (binade x)" by (simp add: power_int_increasing)
  also have "\<dots> \<le> x" using assms(1) by (rule binade_le)
  finally show False using assms(2) by simp
qed

lemma fl_le_int:
  assumes "0 < x" and "x \<le> of_int n" and "n < 2 ^ 53"
  shows "fl x \<le> of_int n"
proof -
  define k where "k = max (binade \<bar>x\<bar>) (- 1022)"
  have "(of_int n :: rat) < of_int (2 ^ 53)" using assms(3) by (simp only: of_int_less_iff)
  then have "x < 2 powi 53" using assms(2) by simp
  then have "binade x < 53" using assms(1) by (intro binade_less)
  then have k: "k \<le> 52" using assms(1) by (simp add: k_def)
  have u: "ulp x = 2 powi (k - 52)" by (simp add: ulp_def k_def)
  define N where "N = n * 2 ^ nat (52 - k)"
  have inv: "1 / ulp x = of_int (2 ^ nat (52 - k))"
    using k by (simp add: u power_int_def power_one_over field_simps)
  have "x / ulp x \<le> of_int n / ulp x" using assms(2) ulp_pos[of x] by (simp add: divide_right_mono)
  also have "\<dots> = of_int n * (1 / ulp x)" by simp
  also have "\<dots> = of_int N" unfolding inv N_def by simp
  finally have "round_even (x / ulp x) \<le> N" by (rule round_even_mono_int(1))
  then have "(of_int (round_even (x / ulp x)) :: rat) \<le> of_int N" by (simp only: of_int_le_iff)
  then have "of_int (round_even (x / ulp x)) * ulp x \<le> of_int N * ulp x"
    using ulp_pos[of x] by (simp add: mult_right_mono)
  also have "of_int N * ulp x = of_int n * (1 / ulp x) * ulp x" unfolding inv N_def by simp
  also have "\<dots> = of_int n" using ulp_pos[of x] by simp
  finally show ?thesis using assms(1) by (simp add: fl_def)
qed

lemma qa_rate_range:
  assumes "0 \<le> f" and "f \<le> t"
  shows "0 \<le> qa_rate f t \<and> qa_rate f t \<le> 100"
proof (cases "0 < t")
  case False
  then show ?thesis by (simp add: qa_rate_def)
next
  case True
  define y where "y = fdiv (of_int f) (of_int t)"
  define z where "z = fmul y 100"
  have q0: "(0::rat) \<le> of_int f / of_int t" using assms True by simp
  have q1: "(of_int f / of_int t :: rat) \<le> of_int 1" using assms True by simp
  have y0: "0 \<le> y" unfolding y_def fdiv_def using q0 by (rule fl_nonneg)
  have y1: "y \<le> 1"
  proof (cases "f = 0")
    case True
    then show ?thesis by (simp add: y_def fdiv_def fl_def)
  next
    case False
    with assms True have "(0::rat) < of_int f / of_int t" by simp
    from fl_le_int[OF this q1] show ?thesis by (simp add: y_def fdiv_def)
  qed
  have z0: "0 \<le> z" unfolding z_def fmul_def using y0 by (intro fl_nonneg) simp
  have z1: "z \<le> 100"
  proof (cases "y = 0")
    case True
    then show ?thesis by (simp add: z_def fmul_def fl_def)
  next
    case False
    with y0 have p: "0 < y * 100" by simp
    have "y * 100 \<le> of_int 100" using y1 by simp
    from fl_le_int[OF p this] show ?thesis by (simp add: z_def fmul_def)
  qed
  have "qa_rate f t = \<lfloor>z + 1 / 2\<rfloor>" using True by (simp add: qa_rate_def Math_round_def z_def y_def)
  moreover have "0 \<le> \<lfloor>z + 1 / 2\<rfloor>" using z0 by (simp add: le_floor_iff)
  moreover have "\<lfloor>z + 1 / 2\<rfloor> \<le> 100" using z1 by (simp add: floor_le_iff)
  ultimately show ?thesis by simp
qed


section \<open>Properties of the aggregator\<close>

lemma length_filter_split:
  "length (filter (\<lambda>x. \<not> P x) xs) + length (filter P xs) = length xs"
  by (induction xs) auto

lemma isDone_done_feature: "isDone done_feature"
  by code_simp

lemma isDone_closed_bug: "isDone closed_bug"
  by code_simp

lemma closedInRange_examples:
  "closedInRange 2000 done_feature" "closedInRange 2000 closed_bug"
  by (simp_all add: closedInRange_def isDone_done_feature isDone_closed_bug)
     (simp_all add: done_feature_def closed_bug_def)

lemma computeStats_qaPassRate:
  "qaPassRate (stats (computeStats featureTasks bugTasks sinceMs)) =
     qa_rate (int (length (filter (closedInRange sinceMs) featureTasks)))
       (int (length (filter (closedInRange sinceMs) featureTasks))
          + int (length (filter (closedInRange sinceMs) bugTasks)))"
  by (simp add: computeStats_def Let_def)

lemma qa_rate_23_40: "qa_rate 23 40 = 57"
  by code_simp

lemma product_23_40: "fmul (fdiv 23 40) 100 = 8092405580431359 / 140737488355328"
  by code_simp

lemma qa_rate_1_1: "qa_rate 1 1 = 100"
  by code_simp

lemma qa_rate_2_3: "qa_rate 2 3 = 67"
  by code_simp

text \<open>
  C1: \<open>qaPassRate\<close> is the percentage of shipped features among shipped features and
  closed bugs, rounded half up. The code divides first and multiplies by 100 afterwards,
  both in binary64: with 23 shipped features and 17 closed bugs the exact percentage is
  57.5, the computed product is 57.49999999999999 (the fraction below), and the code
  returns 57 where the rounded percentage is 58.
\<close>

theorem qaPassRate_tie_23_of_40:
  "int (length (filter (closedInRange 2000) (replicate 23 done_feature))) = 23 \<and>
   int (length (filter (closedInRange 2000) (replicate 17 closed_bug))) = 17 \<and>
   fmul (fdiv 23 40) 100 = 8092405580431359 / 140737488355328 \<and>
   qaPassRate (stats (computeStats (replicate 23 done_feature) (replicate 17 closed_bug) 2000)) = 57 \<and>
   qaPassRate_spec 23 17 = 58"
proof -
  have f: "filter (closedInRange 2000) (replicate 23 done_feature) = replicate 23 done_feature"
    by (simp add: closedInRange_examples)
  have b: "filter (closedInRange 2000) (replicate 17 closed_bug) = replicate 17 closed_bug"
    by (simp add: closedInRange_examples)
  have q: "qaPassRate (stats (computeStats (replicate 23 done_feature) (replicate 17 closed_bug) 2000)) = 57"
    unfolding computeStats_qaPassRate f b by (simp add: qa_rate_23_40)
  have s: "qaPassRate_spec 23 17 = 58"
    by (simp add: qaPassRate_spec_def)
  show ?thesis unfolding f b using q s product_23_40 by simp
qed

text \<open>
  C2, as stated: \<open>qaPassRate\<close> is 100 exactly when no feature was shipped and no bug was
  closed in the window. One shipped feature and no closed bug give 100 with a denominator
  of 1.
\<close>

theorem qaPassRate_100_nonzero_denominator:
  "\<not> (qaPassRate (stats (computeStats [done_feature] [] 2000)) = 100 \<longleftrightarrow>
       int (length (filter (closedInRange 2000) [done_feature]))
         + int (length (filter (closedInRange 2000) [])) = 0)"
  unfolding computeStats_qaPassRate by (simp add: closedInRange_examples qa_rate_1_1)

text \<open>
  C2, amended: \<open>qaPassRate\<close> lies between 0 and 100, and it is 100 whenever no feature
  was shipped and no bug was closed in the window.
\<close>

theorem qaPassRate_range:
  "0 \<le> qaPassRate (stats (computeStats featureTasks bugTasks sinceMs)) \<and>
   qaPassRate (stats (computeStats featureTasks bugTasks sinceMs)) \<le> 100 \<and>
   (int (length (filter (closedInRange sinceMs) featureTasks))
      + int (length (filter (closedInRange sinceMs) bugTasks)) = 0
    \<longrightarrow> qaPassRate (stats (computeStats featureTasks bugTasks sinceMs)) = 100)"
proof -
  let ?f = "int (length (filter (closedInRange sinceMs) featureTasks))"
  let ?b = "int (length (filter (closedInRange sinceMs) bugTasks))"
  have "0 \<le> ?f" and "?f \<le> ?f + ?b" by simp_all
  then have "0 \<le> qa_rate ?f (?f + ?b) \<and> qa_rate ?f (?f + ?b) \<le> 100"
    by (rule qa_rate_range)
  moreover have "?f + ?b = 0 \<longrightarrow> qa_rate ?f (?f + ?b) = 100"
    by (simp add: qa_rate_def)
  ultimately show ?thesis unfolding computeStats_qaPassRate by blast
qed

theorem qaPassRate_range_witness:
  "int (length (filter (closedInRange 0) [])) + int (length (filter (closedInRange 0) [])) = 0 \<and>
   qaPassRate (stats (computeStats [] [] 0)) = 100"
  using qaPassRate_range [of "[]" "[]" 0] by simp

text \<open>
  C3: for every bug collection and every cutoff, \<open>openBugs\<close> plus the number of bug tasks
  that satisfy \<open>isDone\<close> is the number of bug tasks.
\<close>

theorem openBugs_complement:
  "openBugs (stats (computeStats featureTasks bugTasks sinceMs))
     + int (length (filter isDone bugTasks)) = int (length bugTasks)"
proof -
  have "openBugs (stats (computeStats featureTasks bugTasks sinceMs))
          = int (length (filter (\<lambda>t. \<not> isDone t) bugTasks))"
    by (simp add: computeStats_def Let_def)
  moreover have "length (filter (\<lambda>t. \<not> isDone t) bugTasks) + length (filter isDone bugTasks)
          = length bugTasks"
    by (rule length_filter_split)
  ultimately show ?thesis by linarith
qed

lemma lower_labels:
  "toLowerCase ''done'' = ''done''" "toLowerCase ''in progress'' = ''in progress''"
  "toLowerCase ''closed'' = ''closed''" "toLowerCase ''new'' = ''new''"
  by code_simp+

lemma label_update:
  "lowered_label (t\<lparr>status := Some (Some s)\<rparr>) = Some (toLowerCase s)"
  "lowered_label (t\<lparr>status := Some (Some s), date_closed := c\<rparr>) = Some (toLowerCase s)"
  by (simp_all add: lowered_label_def status_label_def)

text \<open>
  C4: three feature tasks (two labelled "done" and closed two days before now, one
  labelled "in progress") and two bug tasks (one labelled "closed" and closed one day before
  now, one labelled "new" without closure timestamp) give, for the cutoff seven days before
  now, featuresShipped 2, inProgress 1, bugsResolved 1, openBugs 1 and qaPassRate 67. The
  other fields of the five tasks are arbitrary.
\<close>

theorem scenario_7d:
  "let day = 24 * 60 * 60 * 1000;
       featureTasks = [f1\<lparr>status := Some (Some ''done''), date_closed := Millis (now - 2 * day)\<rparr>,
                       f2\<lparr>status := Some (Some ''done''), date_closed := Millis (now - 2 * day)\<rparr>,
                       f3\<lparr>status := Some (Some ''in progress'')\<rparr>];
       bugTasks = [b1\<lparr>status := Some (Some ''closed''), date_closed := Millis (now - day)\<rparr>,
                   b2\<lparr>status := Some (Some ''new''), date_closed := Missing\<rparr>];
       r = computeStats featureTasks bugTasks (daysAgo now 7)
   in featuresShipped (stats r) = 2 \<and> inProgress (stats r) = 1 \<and> resolved (bugs r) = 1 \<and>
      openBugs (stats r) = 1 \<and> qaPassRate (stats r) = 67"
  by (simp add: Let_def computeStats_def closedInRange_def isDone_def isInProgress_def
      label_update lower_labels DONE_STATUSES_def IN_PROGRESS_STATUSES_def daysAgo_def qa_rate_2_3)

subsection \<open>Absent labels and closure timestamps\<close>

lemma no_label_open:
  assumes "status t = None \<or> status t = Some None"
  shows "\<not> isDone t" and "\<not> isInProgress t"
  using assms by (auto simp: isDone_def isInProgress_def lowered_label_def status_label_def)

lemma missing_closure_out_of_range:
  "date_closed t = Missing \<Longrightarrow> \<not> closedInRange sinceMs t"
  by (simp add: closedInRange_def)

lemma null_closure_in_range:
  "date_closed t = JNull \<Longrightarrow> closedInRange sinceMs t \<longleftrightarrow> isDone t \<and> sinceMs \<le> 0"
  by (simp add: closedInRange_def)

lemma isDone_done_null_closed: "isDone done_null_closed"
  by code_simp

text \<open>
  C10, as stated: a done task without closure timestamp is never in range, whatever the
  cutoff. The API's value for a task that was not closed is \<open>null\<close>, which \<open>Number\<close> reads
  as 0: for the cutoff 0 such a task is in range and counts as a shipped feature.
\<close>

theorem null_closure_counted_at_cutoff_0:
  "isDone done_null_closed \<and> \<not> truthy (date_closed done_null_closed) \<and>
   closedInRange 0 done_null_closed \<and>
   featuresShipped (stats (computeStats [done_null_closed] [] 0)) = 1"
proof -
  have n: "date_closed done_null_closed = JNull" by (simp add: done_null_closed_def)
  have c: "closedInRange 0 done_null_closed"
    by (simp add: null_closure_in_range [OF n] isDone_done_null_closed)
  show ?thesis using c by (simp add: n isDone_done_null_closed computeStats_def Let_def)
qed

text \<open>
  C10, amended: a task without status object or without label is neither done nor in
  progress, and in the bug collection it counts as an open bug. A done task whose closure
  field is missing is in range for no cutoff, and one whose closure field is \<open>null\<close> is in
  range for no positive cutoff; it then counts neither as shipped feature, nor as closed
  task, nor as resolved bug.
\<close>

theorem absent_label_absent_closure:
  assumes "status t = None \<or> status t = Some None"
    and "isDone u"
    and "date_closed u = Missing \<or> (date_closed u = JNull \<and> 0 < sinceMs)"
  shows "\<not> isDone t \<and> \<not> isInProgress t \<and>
         openBugs (stats (computeStats fs (bs1 @ t # bs2) sinceMs))
           = openBugs (stats (computeStats fs (bs1 @ bs2) sinceMs)) + 1 \<and>
         \<not> closedInRange sinceMs u \<and>
         featuresShipped (stats (computeStats (fs1 @ u # fs2) bs sinceMs))
           = featuresShipped (stats (computeStats (fs1 @ fs2) bs sinceMs)) \<and>
         tasksClosed (stats (computeStats (fs1 @ u # fs2) bs sinceMs))
           = tasksClosed (stats (computeStats (fs1 @ fs2) bs sinceMs)) \<and>
         tasksClosed (stats (computeStats fs (bs1 @ u # bs2) sinceMs))
           = tasksClosed (stats (computeStats fs (bs1 @ bs2) sinceMs)) \<and>
         resolved (bugs (computeStats fs (bs1 @ u # bs2) sinceMs))
           = resolved (bugs (computeStats fs (bs1 @ bs2) sinceMs))"
proof -
  have t: "\<not> isDone t" "\<not> isInProgress t" using assms(1) by (rule no_label_open)+
  have u: "\<not> closedInRange sinceMs u"
    using assms(3) by (auto simp: missing_closure_out_of_range null_closure_in_range)
  show ?thesis using t u by (simp add: computeStats_def Let_def)
qed

theorem absent_label_absent_closure_witness:
  "(status unlabelled_bug = None \<or> status unlabelled_bug = Some None) \<and>
   isDone done_unclosed \<and> date_closed done_unclosed = Missing \<and>
   isDone done_null_closed \<and> date_closed done_null_closed = JNull \<and>
   openBugs (stats (computeStats [] [unlabelled_bug] 0)) = 1 \<and>
   featuresShipped (stats (computeStats [done_unclosed] [] (- 5))) = 0 \<and>
   featuresShipped (stats (computeStats [done_null_closed] [] 1)) = 0"
proof -
  have a: "status unlabelled_bug = None \<or> status unlabelled_bug = Some None"
    by (simp add: unlabelled_bug_def)
  have b: "isDone done_unclosed" by code_simp
  have c: "date_closed done_unclosed = Missing" by (simp add: done_unclosed_def)
  have c': "date_closed done_unclosed = Missing \<or> (date_closed done_unclosed = JNull \<and> 0 < sinceMs)"
    for sinceMs :: int using c by simp
  have d: "date_closed done_null_closed = JNull" by (simp add: done_null_closed_def)
  have d': "date_closed done_null_closed = Missing \<or> (date_closed done_null_closed = JNull \<and> 0 < (1::int))"
    using d by simp
  have e: "openBugs (stats (computeStats [] [] sinceMs)) = 0"
          "featuresShipped (stats (computeStats [] [] sinceMs)) = 0" for sinceMs
    by (simp_all add: computeStats_def Let_def)
  show ?thesis
    using absent_label_absent_closure [OF a b c', of "[]" "[]" "[]" 0 "[]" "[]" "[]"]
          absent_label_absent_closure [OF a b c', of "[]" "[]" "[]" "- 5" "[]" "[]" "[]"]
          absent_label_absent_closure [OF a isDone_done_null_closed d', of "[]" "[]" "[]" "[]" "[]" "[]"]
          a b c d e isDone_done_null_closed
    by simp
qed

section \<open>Properties of the fetcher\<close>

text \<open>
  C6: the fetch of a collection whose identifier is unset (or empty) returns the empty
  collection, raises nothing and leaves the world as it is: no request is issued.
\<close>

theorem getListTasks_unset:
  "\<not> is_set listId \<Longrightarrow> getListTasks env listId w = (Inr [], w)"
  by (cases listId) (simp_all add: getListTasks_def)

theorem getListTasks_unset_witness:
  "\<not> is_set None \<and> getListTasks good_env None old_world = (Inr [], old_world)"
  using getListTasks_unset [of None good_env old_world] by simp


section \<open>Properties of the reporter\<close>

lemma data_json_emit: "data_json (emit e w) = data_json w"
  by (simp add: emit_def)

lemma data_json_log_range: "data_json (log_range w rd) = data_json w"
  by (simp add: log_range_def data_json_emit)

lemma data_json_log_ranges: "data_json (foldl log_range w rs) = data_json w"
  by (induction rs arbitrary: w) (simp_all add: data_json_log_range)

lemma data_json_clickup: "data_json (snd (clickup env path query w)) = data_json w"
  by (simp add: clickup_def Let_def data_json_emit split: response.splits)

lemma data_json_getListTasks: "data_json (snd (getListTasks env listId w)) = data_json w"
proof -
  have "data_json (snd (clickup env path q w)) = data_json w" for path q
    by (rule data_json_clickup)
  then show ?thesis
    by (auto simp: getListTasks_def split: option.splits prod.splits sum.splits)
      (metis snd_conv)+
qed

lemma data_json_fetch_all: "data_json (snd (fetch_all env w)) = data_json w"
proof -
  obtain rf w1 where 1: "getListTasks env (FEATURES_LIST env) w = (rf, w1)" by force
  obtain rb w2 where 2: "getListTasks env (BUGS_LIST env) w1 = (rb, w2)" by force
  have "data_json w1 = data_json w" using data_json_getListTasks [of env "FEATURES_LIST env" w] 1 by simp
  moreover have "data_json w2 = data_json w1" using data_json_getListTasks [of env "BUGS_LIST env" w1] 2 by simp
  moreover have "snd (fetch_all env w) = w2"
    by (simp add: fetch_all_def 1 2 split: sum.splits)
  ultimately show ?thesis by simp
qed

lemma main_success:
  assumes "main env w = (Inr u, w')"
  shows "\<exists>fs bs w1 acts.
           fetch_all env (emit LogFetching w) = (Inr (fs, bs), w1) \<and>
           recent env fs bs = Inr acts \<and>
           data_json w' = Some \<lparr>lastUpdated = toISOString env (clock env 5),
             default_stats = stats (computeStats fs bs (daysAgo (clock env 1) 7)),
             default_bugs = bugs (computeStats fs bs (daysAgo (clock env 1) 7)),
             ranges = [(''today'', computeStats fs bs (daysAgo (clock env 0) 1)),
                       (''7d'', computeStats fs bs (daysAgo (clock env 1) 7)),
                       (''30d'', computeStats fs bs (daysAgo (clock env 2) 30)),
                       (''90d'', computeStats fs bs (daysAgo (clock env 3) 90)),
                       (''ytd'', computeStats fs bs (startOfYear env (clock env 4)))],
             recentActivity = acts\<rparr>"
proof -
  obtain r w1 where f: "fetch_all env (emit LogFetching w) = (r, w1)" by force
  show ?thesis
  proof (cases r)
    case (Inl e)
    with assms f show ?thesis by (simp add: main_def)
  next
    case (Inr p)
    obtain fs bs where p: "p = (fs, bs)" by (cases p)
    show ?thesis
    proof (cases "recent env fs bs")
      case (Inl e)
      with assms f Inr p show ?thesis by (simp add: main_def Let_def)
    next
      case acts: (Inr acts)
      show ?thesis
      proof (cases "write_outcome env")
        case Written
        with assms f Inr p acts show ?thesis
          by (auto simp: main_def Let_def writeFileSync_def data_json_log_range data_json_emit)
      next
        case (Fails msg left)
        with assms f Inr p acts show ?thesis
          by (simp add: main_def Let_def writeFileSync_def)
      qed
    qed
  qed
qed

lemma main_failure:
  assumes "main env w = (Inl e, w')" and "\<forall>msg. e \<noteq> WriteFailed msg"
  shows "data_json w' = data_json w"
proof -
  obtain r w1 where f: "fetch_all env (emit LogFetching w) = (r, w1)" by force
  have w1: "data_json w1 = data_json w"
    using data_json_fetch_all [of env "emit LogFetching w"] f by (simp add: data_json_emit)
  show ?thesis
  proof (cases r)
    case (Inl e')
    with assms f w1 show ?thesis by (simp add: main_def)
  next
    case (Inr p)
    obtain fs bs where p: "p = (fs, bs)" by (cases p)
    show ?thesis
    proof (cases "recent env fs bs")
      case (Inl e')
      with assms f Inr p w1 show ?thesis by (auto simp: main_def Let_def data_json_emit)
    next
      case acts: (Inr acts)
      show ?thesis
      proof (cases "write_outcome env")
        case Written
        with assms f Inr p acts show ?thesis
          by (simp add: main_def Let_def writeFileSync_def)
      next
        case (Fails msg left)
        with assms f Inr p acts show ?thesis
          by (auto simp: main_def Let_def writeFileSync_def)
      qed
    qed
  qed
qed

lemma run_success:
  assumes "run env w = (w', 0)"
  shows "main env w = (Inr (), w')"
proof -
  obtain r w1 where m: "main env w = (r, w1)" by force
  with assms show ?thesis
    by (cases r) (auto simp: run_def split: if_splits)
qed

lemma run_good: "snd (run good_env old_world) = 0"
  by code_simp

lemma run_good_ranges:
  "map_option (\<lambda>d. map (\<lambda>(k, r). (k, featuresShipped (stats r), qaPassRate (stats r))) (ranges d))
     (data_json (fst (run good_env old_world))) =
   Some [(''today'', 0, 100), (''7d'', 1, 100), (''30d'', 1, 100), (''90d'', 1, 100),
         (''ytd'', 1, 100)]"
  by code_simp

lemma run_busy: "snd (run busy_env old_world) = 0"
  by code_simp

lemma fetch_busy:
  "fst (fetch_all busy_env (emit LogFetching old_world)) = Inr (busy_features, busy_bugs)"
  by code_simp

lemma busy_candidates:
  "length (busy_features @ busy_bugs) = 11"
  "length (filter (\<lambda>t. isDone t \<and> truthy (date_closed t)) (busy_features @ busy_bugs)) = 7"
  by code_simp+

lemma recent_tasks_busy:
  "recent_tasks busy_features busy_bugs =
     [example_task ''b'' ''Complete'' (Millis 1699900000000),
      example_task ''g'' ''Closed'' (Millis 1699800000000),
      example_task ''f'' ''done'' (Millis 1699500000000),
      example_task ''i'' ''closed'' (Millis 1699500000000),
      example_task ''a'' ''done'' (Millis 1699100000000)]"
  by code_simp

lemma run_busy_recent:
  "map_option recentActivity (data_json (fst (run busy_env old_world))) =
     Some [\<lparr>title = ''b'', activity_status = Some ''Complete'',
             closedAt = ''2023-11-13T18:26:40.000Z'', activity_url = ''https://app/t/b''\<rparr>,
           \<lparr>title = ''g'', activity_status = Some ''Closed'',
             closedAt = ''2023-11-12T14:40:00.000Z'', activity_url = ''https://app/t/g''\<rparr>,
           \<lparr>title = ''f'', activity_status = Some ''done'',
             closedAt = ''2023-11-09T03:20:00.000Z'', activity_url = ''https://app/t/f''\<rparr>,
           \<lparr>title = ''i'', activity_status = Some ''closed'',
             closedAt = ''2023-11-09T03:20:00.000Z'', activity_url = ''https://app/t/i''\<rparr>,
           \<lparr>title = ''a'', activity_status = Some ''done'',
             closedAt = ''2023-11-04T12:13:20.000Z'', activity_url = ''https://app/t/a''\<rparr>]"
  by code_simp

lemma main_bad: "fst (main bad_env old_world) = Inl (ApiError ''/list/11/task'' 500 ''down'')"
  by code_simp

lemma recent_tasks_props:
  "length (recent_tasks fs bs) \<le> 5"
  "\<forall>t \<in> set (recent_tasks fs bs). t \<in> set (fs @ bs) \<and> isDone t \<and> date_closed t = Millis (closed_ms t)"
  "sorted_wrt (\<lambda>a b. closed_ms b \<le> closed_ms a) (recent_tasks fs bs)"
proof -
  let ?c = "filter (\<lambda>t. includes_js DONE_STATUSES (lowered_label t) \<and> truthy (date_closed t)) (fs @ bs)"
  let ?s = "sort_key (\<lambda>t. - closed_ms t) ?c"
  show "length (recent_tasks fs bs) \<le> 5" by (simp add: recent_tasks_def)
  have m: "truthy c \<Longrightarrow> c = Millis (case Number c of Some n \<Rightarrow> n | None \<Rightarrow> 0)" for c
    by (cases c) simp_all
  have "\<forall>t \<in> set ?s. t \<in> set (fs @ bs) \<and> isDone t \<and> date_closed t = Millis (closed_ms t)"
    using m by (auto simp: isDone_def closed_ms_def)
  then show "\<forall>t \<in> set (recent_tasks fs bs). t \<in> set (fs @ bs) \<and> isDone t \<and> date_closed t = Millis (closed_ms t)"
    unfolding recent_tasks_def by (meson in_set_takeD)
  have "sorted (map (\<lambda>t. - closed_ms t) ?s)" by (rule sorted_sort_key)
  then have "sorted_wrt (\<lambda>a b. closed_ms b \<le> closed_ms a) ?s"
    by (simp add: sorted_map)
  then show "sorted_wrt (\<lambda>a b. closed_ms b \<le> closed_ms a) (recent_tasks fs bs)"
    unfolding recent_tasks_def by (rule sorted_wrt_take)
qed

lemma recent_Inr:
  "recent env fs bs = Inr acts \<Longrightarrow> acts = map (activity_of env) (recent_tasks fs bs)"
  by (simp add: recent_def Let_def split: if_splits)

text \<open>
  C5: in the document of a successful run, \<open>recentActivity\<close> has at most five entries; they
  are the reductions to title, status, closure time and URL (\<open>activity_of\<close>) of fetched
  tasks that are done and have a closure timestamp, in descending order of that timestamp.
\<close>

theorem recentActivity_top5:
  assumes "run env w = (w', 0)"
  shows "\<exists>d fs bs w1 sel.
           data_json w' = Some d \<and>
           fetch_all env (emit LogFetching w) = (Inr (fs, bs), w1) \<and>
           recentActivity d = map (activity_of env) sel \<and>
           length (recentActivity d) \<le> 5 \<and>
           (\<forall>t \<in> set sel. t \<in> set (fs @ bs) \<and> isDone t \<and> date_closed t = Millis (closed_ms t)) \<and>
           sorted_wrt (\<lambda>a b. closed_ms b \<le> closed_ms a) sel"
proof -
  from assms have "main env w = (Inr (), w')" by (rule run_success)
  from main_success [OF this] obtain fs bs w1 acts d where
    d: "data_json w' = Some d"
    and f: "fetch_all env (emit LogFetching w) = (Inr (fs, bs), w1)"
    and a: "recent env fs bs = Inr acts"
    and r: "recentActivity d = acts"
    by force
  let ?sel = "recent_tasks fs bs"
  have m: "recentActivity d = map (activity_of env) ?sel" using recent_Inr [OF a] r by simp
  have l: "length (recentActivity d) \<le> 5" unfolding m using recent_tasks_props(1) [of fs bs] by simp
  show ?thesis
    using d f m l recent_tasks_props(2,3) [of fs bs] by blast
qed

theorem recentActivity_top5_witness:
  "run busy_env old_world = (fst (run busy_env old_world), 0) \<and>
   fst (fetch_all busy_env (emit LogFetching old_world)) = Inr (busy_features, busy_bugs) \<and>
   length (busy_features @ busy_bugs) = 11 \<and>
   length (filter (\<lambda>t. isDone t \<and> truthy (date_closed t)) (busy_features @ busy_bugs)) = 7 \<and>
   recent_tasks busy_features busy_bugs =
     [example_task ''b'' ''Complete'' (Millis 1699900000000),
      example_task ''g'' ''Closed'' (Millis 1699800000000),
      example_task ''f'' ''done'' (Millis 1699500000000),
      example_task ''i'' ''closed'' (Millis 1699500000000),
      example_task ''a'' ''done'' (Millis 1699100000000)] \<and>
   (\<exists>d sel.
      data_json (fst (run busy_env old_world)) = Some d \<and>
      recentActivity d = map (activity_of busy_env) sel \<and>
      length (recentActivity d) \<le> 5 \<and>
      (\<forall>t \<in> set sel. t \<in> set (busy_features @ busy_bugs) \<and> isDone t \<and>
                        date_closed t = Millis (closed_ms t)) \<and>
      sorted_wrt (\<lambda>a b. closed_ms b \<le> closed_ms a) sel \<and>
      recentActivity d =
        [\<lparr>title = ''b'', activity_status = Some ''Complete'',
            closedAt = ''2023-11-13T18:26:40.000Z'', activity_url = ''https://app/t/b''\<rparr>,
         \<lparr>title = ''g'', activity_status = Some ''Closed'',
            closedAt = ''2023-11-12T14:40:00.000Z'', activity_url = ''https://app/t/g''\<rparr>,
         \<lparr>title = ''f'', activity_status = Some ''done'',
            closedAt = ''2023-11-09T03:20:00.000Z'', activity_url = ''https://app/t/f''\<rparr>,
         \<lparr>title = ''i'', activity_status = Some ''closed'',
            closedAt = ''2023-11-09T03:20:00.000Z'', activity_url = ''https://app/t/i''\<rparr>,
         \<lparr>title = ''a'', activity_status = Some ''done'',
            closedAt = ''2023-11-04T12:13:20.000Z'', activity_url = ''https://app/t/a''\<rparr>])"
proof -
  have r: "run busy_env old_world = (fst (run busy_env old_world), 0)"
    using run_busy by (simp add: prod_eq_iff)
  from recentActivity_top5 [OF r] obtain d fs bs w1 sel where
    d: "data_json (fst (run busy_env old_world)) = Some d"
    and f: "fetch_all busy_env (emit LogFetching old_world) = (Inr (fs, bs), w1)"
    and m: "recentActivity d = map (activity_of busy_env) sel"
    and l: "length (recentActivity d) \<le> 5"
    and c: "\<forall>t \<in> set sel. t \<in> set (fs @ bs) \<and> isDone t \<and> date_closed t = Millis (closed_ms t)"
    and o: "sorted_wrt (\<lambda>a b. closed_ms b \<le> closed_ms a) sel"
    by blast
  from f fetch_busy have fb: "fs = busy_features" "bs = busy_bugs" by simp_all
  from run_busy_recent d have v: "recentActivity d =
        [\<lparr>title = ''b'', activity_status = Some ''Complete'',
            closedAt = ''2023-11-13T18:26:40.000Z'', activity_url = ''https://app/t/b''\<rparr>,
         \<lparr>title = ''g'', activity_status = Some ''Closed'',
            closedAt = ''2023-11-12T14:40:00.000Z'', activity_url = ''https://app/t/g''\<rparr>,
         \<lparr>title = ''f'', activity_status = Some ''done'',
            closedAt = ''2023-11-09T03:20:00.000Z'', activity_url = ''https://app/t/f''\<rparr>,
         \<lparr>title = ''i'', activity_status = Some ''closed'',
            closedAt = ''2023-11-09T03:20:00.000Z'', activity_url = ''https://app/t/i''\<rparr>,
         \<lparr>title = ''a'', activity_status = Some ''done'',
            closedAt = ''2023-11-04T12:13:20.000Z'', activity_url = ''https://app/t/a''\<rparr>]"
    by simp
  have e: "\<exists>d sel.
      data_json (fst (run busy_env old_world)) = Some d \<and>
      recentActivity d = map (activity_of busy_env) sel \<and>
      length (recentActivity d) \<le> 5 \<and>
      (\<forall>t \<in> set sel. t \<in> set (busy_features @ busy_bugs) \<and> isDone t \<and>
                        date_closed t = Millis (closed_ms t)) \<and>
      sorted_wrt (\<lambda>a b. closed_ms b \<le> closed_ms a) sel \<and>
      recentActivity d =
        [\<lparr>title = ''b'', activity_status = Some ''Complete'',
            closedAt = ''2023-11-13T18:26:40.000Z'', activity_url = ''https://app/t/b''\<rparr>,
         \<lparr>title = ''g'', activity_status = Some ''Closed'',
            closedAt = ''2023-11-12T14:40:00.000Z'', activity_url = ''https://app/t/g''\<rparr>,
         \<lparr>title = ''f'', activity_status = Some ''done'',
            closedAt = ''2023-11-09T03:20:00.000Z'', activity_url = ''https://app/t/f''\<rparr>,
         \<lparr>title = ''i'', activity_status = Some ''closed'',
            closedAt = ''2023-11-09T03:20:00.000Z'', activity_url = ''https://app/t/i''\<rparr>,
         \<lparr>title = ''a'', activity_status = Some ''done'',
            closedAt = ''2023-11-04T12:13:20.000Z'', activity_url = ''https://app/t/a''\<rparr>]"
    using d m l c [unfolded fb] o v by (intro exI [of _ d] exI [of _ sel] conjI)
  show ?thesis
    using r fetch_busy busy_candidates recent_tasks_busy e by (intro conjI)
qed

lemma computeStats_counts_nonneg:
  "\<forall>c \<in> set (counts_of (computeStats fs bs sinceMs)). 0 \<le> c"
proof -
  have "0 \<le> qaPassRate (stats (computeStats fs bs sinceMs))"
  proof -
    let ?f = "int (length (filter (closedInRange sinceMs) fs))"
    let ?b = "int (length (filter (closedInRange sinceMs) bs))"
    have "0 \<le> ?f" and "?f \<le> ?f + ?b" by simp_all
    then have "0 \<le> qa_rate ?f (?f + ?b) \<and> qa_rate ?f (?f + ?b) \<le> 100" by (rule qa_rate_range)
    then show ?thesis unfolding computeStats_qaPassRate by simp
  qed
  then show ?thesis by (simp add: counts_of_def) (simp add: computeStats_def Let_def)
qed

text \<open>
  C7: the document a successful run writes has a \<open>ranges\<close> mapping with exactly the keys
  today, 7d, 30d, 90d and ytd, and every number of every per-range snapshot is a
  non-negative integer.
\<close>

theorem ranges_keys_and_counts:
  assumes "run env w = (w', 0)"
  shows "\<exists>d. data_json w' = Some d \<and>
              map fst (ranges d) = [''today'', ''7d'', ''30d'', ''90d'', ''ytd''] \<and>
              (\<forall>r \<in> snd ` set (ranges d). \<forall>c \<in> set (counts_of r). 0 \<le> c)"
proof -
  from assms have "main env w = (Inr (), w')" by (rule run_success)
  from main_success [OF this] obtain fs bs w1 acts d where
    d: "data_json w' = Some d"
    and r: "ranges d = [(''today'', computeStats fs bs (daysAgo (clock env 0) 1)),
                       (''7d'', computeStats fs bs (daysAgo (clock env 1) 7)),
                       (''30d'', computeStats fs bs (daysAgo (clock env 2) 30)),
                       (''90d'', computeStats fs bs (daysAgo (clock env 3) 90)),
                       (''ytd'', computeStats fs bs (startOfYear env (clock env 4)))]"
    by force
  have "\<forall>r \<in> snd ` set (ranges d). \<forall>c \<in> set (counts_of r). 0 \<le> c"
    unfolding r using computeStats_counts_nonneg by simp
  with d r show ?thesis by simp
qed

theorem ranges_keys_and_counts_witness:
  "run good_env old_world = (fst (run good_env old_world), 0) \<and>
   (\<exists>d. data_json (fst (run good_env old_world)) = Some d \<and>
        map fst (ranges d) = [''today'', ''7d'', ''30d'', ''90d'', ''ytd''] \<and>
        (\<forall>r \<in> snd ` set (ranges d). \<forall>c \<in> set (counts_of r). 0 \<le> c) \<and>
        map (\<lambda>(k, r). (k, featuresShipped (stats r), qaPassRate (stats r))) (ranges d) =
          [(''today'', 0, 100), (''7d'', 1, 100), (''30d'', 1, 100), (''90d'', 1, 100),
           (''ytd'', 1, 100)])"
proof -
  have r: "run good_env old_world = (fst (run good_env old_world), 0)"
    using run_good by (simp add: prod_eq_iff)
  from ranges_keys_and_counts [OF r] obtain d where
    dkc: "data_json (fst (run good_env old_world)) = Some d \<and>
      map fst (ranges d) = [''today'', ''7d'', ''30d'', ''90d'', ''ytd''] \<and>
      (\<forall>r \<in> snd ` set (ranges d). \<forall>c \<in> set (counts_of r). 0 \<le> c)" ..
  from dkc have d: "data_json (fst (run good_env old_world)) = Some d" ..
  from dkc have k: "map fst (ranges d) = [''today'', ''7d'', ''30d'', ''90d'', ''ytd'']"
    by (rule conjunct2 [THEN conjunct1])
  from dkc have c: "\<forall>r \<in> snd ` set (ranges d). \<forall>c \<in> set (counts_of r). 0 \<le> c"
    by (rule conjunct2 [THEN conjunct2])
  from run_good_ranges d
  have "map (\<lambda>(k, r). (k, featuresShipped (stats r), qaPassRate (stats r))) (ranges d) =
          [(''today'', 0, 100), (''7d'', 1, 100), (''30d'', 1, 100), (''90d'', 1, 100),
           (''ytd'', 1, 100)]"
    by simp
  with r d k c show ?thesis by (intro conjI exI [of _ d])
qed

text \<open>
  C8: when fetching or aggregation raises an error (any error of \<open>main\<close> other than a failed
  write), the run reports the failure on the error stream, exits with status 1, and the
  output file holds what it held before the run.
\<close>

theorem failure_leaves_file:
  assumes "is_set (TOKEN env)" and "is_set (TEAM_ID env)"
    and "main env w = (Inl e, w')" and "\<forall>msg. e \<noteq> WriteFailed msg"
  shows "snd (run env w) = 1 \<and> data_json (fst (run env w)) = data_json w \<and>
         trace (fst (run env w)) = trace w' @ [ErrUpdateFailed e]"
proof -
  have "data_json w' = data_json w" using assms(3,4) by (rule main_failure)
  then show ?thesis using assms(1,2,3) by (simp add: run_def emit_def)
qed

theorem failure_leaves_file_witness:
  "is_set (TOKEN bad_env) \<and> is_set (TEAM_ID bad_env) \<and>
   main bad_env old_world = (Inl (ApiError ''/list/11/task'' 500 ''down''), snd (main bad_env old_world)) \<and>
   snd (run bad_env old_world) = 1 \<and>
   data_json (fst (run bad_env old_world)) = Some old_document"
proof -
  have t: "is_set (TOKEN bad_env)" "is_set (TEAM_ID bad_env)"
    by (simp_all add: bad_env_def good_env_def)
  have m: "main bad_env old_world = (Inl (ApiError ''/list/11/task'' 500 ''down''), snd (main bad_env old_world))"
    using main_bad by (simp add: prod_eq_iff)
  have n: "\<forall>msg. ApiError ''/list/11/task'' 500 ''down'' \<noteq> WriteFailed msg" by simp
  from failure_leaves_file [OF t m n] t m show ?thesis by (simp add: old_world_def)
qed

section \<open>The aggregator shares no state\<close>

lemma alloc_arr_frame:
  assumes "alloc_arr xs h = (a, h')"
  shows "a = fresh h" and "objs h' = objs h" and "fresh h' = Suc (fresh h)"
    and "arrs h' a = xs" and "\<And>b. b < fresh h \<Longrightarrow> arrs h' b = arrs h b"
  using assms by (auto simp: alloc_arr_def)

lemma filter_h_result:
  assumes "filter_h p x h = (a, h')" and "x < fresh h"
  shows "length_h a h' = int (length (filter p (contents h x)))"
    and "objs h' = objs h" and "fresh h' = Suc (fresh h)"
    and "\<And>b. b < fresh h \<Longrightarrow> arrs h' b = arrs h b"
    and "\<And>b. b < fresh h \<Longrightarrow> contents h' b = contents h b"
  using assms by (auto simp: filter_h_def alloc_arr_def length_h_def contents_def filter_map comp_def)

lemma spread_h_result:
  assumes "spread_h x y h = (a, h')" and "x < fresh h" and "y < fresh h"
  shows "contents h' a = contents h x @ contents h y"
    and "a < fresh h'"
    and "objs h' = objs h" and "fresh h' = Suc (fresh h)"
    and "\<And>b. b < fresh h \<Longrightarrow> arrs h' b = arrs h b"
    and "\<And>b. b < fresh h \<Longrightarrow> contents h' b = contents h b"
  using assms by (auto simp: spread_h_def alloc_arr_def contents_def)

lemma computeStats_h_refines:
  assumes "fa < fresh h" and "ba < fresh h"
  shows "fst (computeStats_h fa ba sinceMs h) = computeStats (contents h fa) (contents h ba) sinceMs"
    and "objs (snd (computeStats_h fa ba sinceMs h)) = objs h"
    and "fresh h \<le> fresh (snd (computeStats_h fa ba sinceMs h))"
    and "\<And>b. b < fresh h \<Longrightarrow> arrs (snd (computeStats_h fa ba sinceMs h)) b = arrs h b"
proof -
  obtain a1 h1 where 1: "filter_h (closedInRange sinceMs) fa h = (a1, h1)" by force
  note r1 = filter_h_result [OF 1 assms(1)]
  have f1: "fa < fresh h1" "ba < fresh h1" using assms r1(3) by simp_all
  obtain a2 h2 where 2: "filter_h isInProgress fa h1 = (a2, h2)" by force
  note r2 = filter_h_result [OF 2 f1(1)]
  have f2: "fa < fresh h2" "ba < fresh h2" using f1 r2(3) by simp_all
  obtain a3 h3 where 3: "spread_h fa ba h2 = (a3, h3)" by force
  note r3 = spread_h_result [OF 3 f2]
  have f3: "fa < fresh h3" "ba < fresh h3" using f2 r3(4) by simp_all
  obtain a4 h4 where 4: "filter_h (closedInRange sinceMs) a3 h3 = (a4, h4)" by force
  note r4 = filter_h_result [OF 4 r3(2)]
  have f4: "fa < fresh h4" "ba < fresh h4" using f3 r4(3) by simp_all
  obtain a5 h5 where 5: "filter_h (\<lambda>t. \<not> isDone t) ba h4 = (a5, h5)" by force
  note r5 = filter_h_result [OF 5 f4(2)]
  have f5: "fa < fresh h5" "ba < fresh h5" using f4 r5(3) by simp_all
  obtain a6 h6 where 6: "filter_h (createdInRange sinceMs) ba h5 = (a6, h6)" by force
  note r6 = filter_h_result [OF 6 f5(2)]
  have f6: "fa < fresh h6" "ba < fresh h6" using f5 r6(3) by simp_all
  obtain a7 h7 where 7: "filter_h (closedInRange sinceMs) ba h6 = (a7, h7)" by force
  note r7 = filter_h_result [OF 7 f6(2)]
  have f7: "fa < fresh h7" "ba < fresh h7" using f6 r7(3) by simp_all
  obtain a8 h8 where 8: "filter_h isDeferred ba h7 = (a8, h8)" by force
  note r8 = filter_h_result [OF 8 f7(2)]
  have f8: "fa < fresh h8" "ba < fresh h8" using f7 r8(3) by simp_all
  obtain a9 h9 where 9: "filter_h (closedInRange sinceMs) ba h8 = (a9, h9)" by force
  note r9 = filter_h_result [OF 9 f8(2)]
  have cf: "contents h1 fa = contents h fa" "contents h2 fa = contents h fa"
           "contents h3 fa = contents h fa"
    using assms f1 f2 r1(5) r2(5) r3(6) by simp_all
  have cb: "contents h2 ba = contents h ba" "contents h4 ba = contents h ba"
    "contents h5 ba = contents h ba" "contents h6 ba = contents h ba"
    "contents h7 ba = contents h ba" "contents h8 ba = contents h ba"
    using assms f1 f2 f3 f4 f5 f6 f7 r1(5) r2(5) r3(6) r4(5) r5(5) r6(5) r7(5) r8(5) by simp_all
  have snd_eq: "snd (computeStats_h fa ba sinceMs h) = h9"
    by (simp add: computeStats_h_def 1 2 3 4 5 6 7 8 9 Let_def)
  show "fst (computeStats_h fa ba sinceMs h) = computeStats (contents h fa) (contents h ba) sinceMs"
    by (simp add: computeStats_h_def computeStats_def 1 2 3 4 5 6 7 8 9 Let_def
        r1(1) r2(1) r4(1) r5(1) r6(1) r7(1) r8(1) r9(1) r3(1) cf cb)
  show "objs (snd (computeStats_h fa ba sinceMs h)) = objs h"
    unfolding snd_eq by (simp add: r1(2) r2(2) r3(3) r4(2) r5(2) r6(2) r7(2) r8(2) r9(2))
  show "fresh h \<le> fresh (snd (computeStats_h fa ba sinceMs h))"
    unfolding snd_eq by (simp add: r1(3) r2(3) r3(4) r4(3) r5(3) r6(3) r7(3) r8(3) r9(3))
  show "arrs (snd (computeStats_h fa ba sinceMs h)) b = arrs h b" if "b < fresh h" for b
  proof -
    have "b < fresh h1" "b < fresh h2" "b < fresh h3" "b < fresh h4" "b < fresh h5"
      "b < fresh h6" "b < fresh h7" "b < fresh h8"
      using that by (simp_all add: r1(3) r2(3) r3(4) r4(3) r5(3) r6(3) r7(3) r8(3))
    then show ?thesis unfolding snd_eq
      using that by (simp add: r1(4) r2(4) r3(5) r4(4) r5(4) r6(4) r7(4) r8(4) r9(4))
  qed
qed

text \<open>
  C9: on the store, \<open>computeStats\<close> returns the snapshot that the function
  \<open>computeStats\<close> gives for the tasks of its two arrays and its cutoff; hence two calls on
  equal collections and equal cutoffs return equal snapshots, whatever the stores they
  run in. A call changes no task object and no array that existed before it, so the
  snapshot of a window is the same after the call for another window as before it.
\<close>

theorem computeStats_h_pure:
  assumes "fa < fresh h" and "ba < fresh h" and "fa' < fresh h'" and "ba' < fresh h'"
    and "contents h fa = contents h' fa'" and "contents h ba = contents h' ba'"
  shows "fst (computeStats_h fa ba sinceMs h) = computeStats (contents h fa) (contents h ba) sinceMs \<and>
         fst (computeStats_h fa ba sinceMs h) = fst (computeStats_h fa' ba' sinceMs h') \<and>
         objs (snd (computeStats_h fa ba sinceMs h)) = objs h \<and>
         (\<forall>b < fresh h. arrs (snd (computeStats_h fa ba sinceMs h)) b = arrs h b) \<and>
         fst (computeStats_h fa ba other (snd (computeStats_h fa ba sinceMs h)))
           = fst (computeStats_h fa ba other h)"
proof -
  let ?h1 = "snd (computeStats_h fa ba sinceMs h)"
  note r = computeStats_h_refines [OF assms(1,2), where sinceMs = sinceMs]
  have a: "fst (computeStats_h fa ba sinceMs h) = fst (computeStats_h fa' ba' sinceMs h')"
    using computeStats_h_refines(1) [OF assms(1,2)] computeStats_h_refines(1) [OF assms(3,4)]
      assms(5,6) by simp
  have f: "fa < fresh ?h1" "ba < fresh ?h1" using assms(1,2) r(3) by simp_all
  have c: "contents ?h1 fa = contents h fa" "contents ?h1 ba = contents h ba"
    using r(2) r(4) [OF assms(1)] r(4) [OF assms(2)] by (simp_all add: contents_def)
  have b: "fst (computeStats_h fa ba other ?h1) = fst (computeStats_h fa ba other h)"
    using computeStats_h_refines(1) [OF f] computeStats_h_refines(1) [OF assms(1,2)] c by simp
  show ?thesis using r(1,2,4) a b by simp
qed

theorem computeStats_h_pure_witness:
  "(2::nat) < fresh example_heap \<and> (3::nat) < fresh example_heap \<and>
   (0::nat) < fresh example_heap2 \<and> (1::nat) < fresh example_heap2 \<and>
   contents example_heap 2 = contents example_heap2 0 \<and>
   contents example_heap 3 = contents example_heap2 1 \<and>
   fst (computeStats_h 2 3 2000 example_heap) = computeStats [done_feature] [closed_bug] 2000 \<and>
   fst (computeStats_h 2 3 2000 example_heap) = fst (computeStats_h 0 1 2000 example_heap2) \<and>
   fst (computeStats_h 2 3 7000 (snd (computeStats_h 2 3 2000 example_heap)))
     = fst (computeStats_h 2 3 7000 example_heap)"
proof -
  have h: "(2::nat) < fresh example_heap" "(3::nat) < fresh example_heap"
    "(0::nat) < fresh example_heap2" "(1::nat) < fresh example_heap2"
    by (simp_all add: example_heap_def example_heap2_def)
  have c: "contents example_heap 2 = [done_feature]" "contents example_heap 3 = [closed_bug]"
    "contents example_heap2 0 = [done_feature]" "contents example_heap2 1 = [closed_bug]"
    by (simp_all add: contents_def example_heap_def example_heap2_def)
  have e: "contents example_heap 2 = contents example_heap2 0"
    "contents example_heap 3 = contents example_heap2 1"
    by (simp_all only: c)
  note t = computeStats_h_pure [OF h e, where sinceMs = 2000 and other = 7000]
  from t have 1: "fst (computeStats_h 2 3 2000 example_heap)
      = computeStats (contents example_heap 2) (contents example_heap 3) 2000" by blast
  from t have 2: "fst (computeStats_h 2 3 2000 example_heap)
      = fst (computeStats_h 0 1 2000 example_heap2)" by blast
  from t have 3: "fst (computeStats_h 2 3 7000 (snd (computeStats_h 2 3 2000 example_heap)))
      = fst (computeStats_h 2 3 7000 example_heap)" by blast
  from 1 have 4: "fst (computeStats_h 2 3 2000 example_heap)
      = computeStats [done_feature] [closed_bug] 2000" by (simp only: c)
  show ?thesis using h e 4 2 3 by blast
qed

end
